theory Spec2Isabelle
  imports Main "HOL-Library.Sublist"
begin

section \<open>Python strings and values\<close>

text \<open>
  Strings are character lists. The operations of \<^verbatim>\<open>str\<close> that the crawler uses
  are modelled on ASCII text: \<^verbatim>\<open>a in b\<close> is \<^const>\<open>sublist\<close>,
  \<^verbatim>\<open>startswith\<close> is \<^const>\<open>prefix\<close>, \<^verbatim>\<open>endswith\<close> is \<^const>\<open>suffix\<close>.
\<close>

definition lower_char :: "char \<Rightarrow> char" where
  "lower_char c =
     (case map_of (zip ''ABCDEFGHIJKLMNOPQRSTUVWXYZ'' ''abcdefghijklmnopqrstuvwxyz'') c of
        Some l \<Rightarrow> l
      | None \<Rightarrow> c)"

definition lower :: "string \<Rightarrow> string" where
  "lower s = map lower_char s"

definition is_space :: "char \<Rightarrow> bool" where
  "is_space c = (let n = (of_char c :: nat) in (9 \<le> n \<and> n \<le> 13) \<or> (28 \<le> n \<and> n \<le> 32))"

definition strip :: "string \<Rightarrow> string" where
  "strip s = rev (dropWhile is_space (rev (dropWhile is_space s)))"

fun split_acc :: "string \<Rightarrow> string \<Rightarrow> string list" where
  "split_acc cur [] = (if cur = [] then [] else [cur])"
| "split_acc cur (c # cs) =
     (if is_space c then (if cur = [] then split_acc [] cs else cur # split_acc [] cs)
      else split_acc (cur @ [c]) cs)"

definition py_split :: "string \<Rightarrow> string list" where
  "py_split s = split_acc [] s"

definition sq :: string where
  "sq = [CHR 0x27]"

definition escape_quotes :: "string \<Rightarrow> string" where
  "escape_quotes s = concat (map (\<lambda>c. if c = CHR 0x27 then [CHR 0x5C, CHR 0x27] else [c]) s)"

text \<open>Truthiness of an optional string: \<^verbatim>\<open>None\<close> and \<^verbatim>\<open>""\<close> are false.\<close>

fun truthy :: "string option \<Rightarrow> bool" where
  "truthy None = False"
| "truthy (Some s) = (s \<noteq> [])"

text \<open>\<^verbatim>\<open>v or d\<close> on an optional string.\<close>

fun or_else :: "string option \<Rightarrow> string \<Rightarrow> string" where
  "or_else None d = d"
| "or_else (Some s) d = (if s = [] then d else s)"

text \<open>\<^verbatim>\<open>v in [..]\<close> where \<^verbatim>\<open>v\<close> may be \<^verbatim>\<open>None\<close>.\<close>

fun opt_in :: "string option \<Rightarrow> string list \<Rightarrow> bool" where
  "opt_in None xs = False"
| "opt_in (Some s) xs = (s \<in> set xs)"

text \<open>\<^verbatim>\<open>d.get(k, default)\<close> on a dictionary of strings.\<close>

definition dict_get :: "(string \<rightharpoonup> string) \<Rightarrow> string \<Rightarrow> string \<Rightarrow> string" where
  "dict_get d k dflt = (case d k of None \<Rightarrow> dflt | Some v \<Rightarrow> v)"

text \<open>\<^verbatim>\<open>any(term in s for term in terms)\<close>.\<close>

definition any_in :: "string list \<Rightarrow> string \<Rightarrow> bool" where
  "any_in terms s = list_ex (\<lambda>t. sublist t s) terms"

section \<open>The rendered element\<close>

text \<open>
  A Selenium \<^verbatim>\<open>WebElement\<close> is modelled by a snapshot of what its accessors return:
  \<^verbatim>\<open>tag_name\<close>, \<^verbatim>\<open>text\<close>, \<^verbatim>\<open>get_attribute\<close>, \<^verbatim>\<open>is_displayed()\<close>,
  \<^verbatim>\<open>is_enabled()\<close>, \<^verbatim>\<open>location\<close>, \<^verbatim>\<open>size\<close>, the screenshot (absent when taking
  it raises) and the tag of the parent reached by the XPath \<^verbatim>\<open>..\<close>.
\<close>

record web_element =
  we_tag_name :: string
  we_text :: string
  get_attribute :: "string \<rightharpoonup> string"
  we_is_displayed :: bool
  we_is_enabled :: bool
  we_location :: "int \<times> int"
  we_size :: "int \<times> int"
  we_screenshot :: "string option"
  we_parent_tag :: string

section \<open>Element classifier\<close>

text \<open>\<^verbatim>\<open>ElementParser._categorize_element\<close> (element_parser.py).\<close>

definition ElementParser_roles :: "string list" where
  "ElementParser_roles =
     [''button'', ''link'', ''checkbox'', ''radio'', ''tab'', ''menu'', ''menuitem'',
      ''combobox'', ''listbox'', ''option'', ''slider'', ''switch'']"

definition categorize_input :: "web_element \<Rightarrow> string" where
  "categorize_input e =
     (let input_type = get_attribute e ''type'' in
      if opt_in input_type [''checkbox'', ''radio'', ''submit'', ''button''] then the input_type
      else if opt_in input_type
                [''text'', ''email'', ''password'', ''number'', ''tel'', ''url'', ''search'']
      then ''input_field''
      else ''input_'' @ or_else input_type ''text'')"

definition ElementParser_categorize_element :: "web_element \<Rightarrow> string" where
  "ElementParser_categorize_element e =
     (let tag_name = lower (we_tag_name e);
          role = get_attribute e ''role''
      in
      if truthy role \<and> opt_in role ElementParser_roles then the role
      else if tag_name = ''a'' then ''link''
      else if tag_name = ''button'' then ''button''
      else if tag_name = ''input'' then categorize_input e
      else if tag_name = ''select'' then ''dropdown''
      else if tag_name = ''textarea'' then ''text_area''
      else if tag_name = ''form'' then ''form''
      else if tag_name \<in> set [''div'', ''span''] \<and>
              any_in [''button'', ''btn'', ''link'', ''clickable'']
                (lower (or_else (get_attribute e ''class'') ''''))
      then ''pseudo_button''
      else if tag_name \<in> set [''i'', ''svg'', ''img''] then
        (if we_parent_tag e = ''a'' then ''icon_link'' else ''icon'')
      else ''other'')"

text \<open>\<^verbatim>\<open>EnhancedAnalyzer._categorize_element\<close> (enhanced_analyzer.py).\<close>

definition EnhancedAnalyzer_roles :: "string list" where
  "EnhancedAnalyzer_roles = [''button'', ''link'', ''checkbox'', ''radio'', ''tab'', ''menuitem'']"

definition EnhancedAnalyzer_categorize_element :: "web_element \<Rightarrow> string" where
  "EnhancedAnalyzer_categorize_element e =
     (let tag_name = lower (we_tag_name e);
          role = get_attribute e ''role''
      in
      if truthy role \<and> opt_in role EnhancedAnalyzer_roles then the role
      else if tag_name = ''a'' then ''link''
      else if tag_name = ''button'' then ''button''
      else if tag_name = ''input'' then categorize_input e
      else if tag_name = ''select'' then ''dropdown''
      else if tag_name = ''textarea'' then ''text_area''
      else
        (let class_attr = or_else (get_attribute e ''class'') '''' in
         if any_in [''button'', ''btn''] (lower class_attr) then ''pseudo_button''
         else if any_in [''dropdown'', ''select''] (lower class_attr) then ''pseudo_dropdown''
         else ''other''))"

text \<open>
  The category strings the specification documents: the twelve role names, the tag
  categories, the verbatim input types, \<^verbatim>\<open>input_\<close> followed by a type, and the
  heuristic categories.
\<close>

definition documented_category :: "string \<Rightarrow> bool" where
  "documented_category s =
     (s \<in> set ElementParser_roles \<or>
      s \<in> set [''link'', ''button'', ''dropdown'', ''text_area'', ''form'', ''input_field'',
                 ''checkbox'', ''radio'', ''submit'', ''pseudo_button'', ''icon_link'',
                 ''icon'', ''other''] \<or>
      prefix ''input_'' s)"

section \<open>Locator generator\<close>

text \<open>\<^verbatim>\<open>EnhancedAnalyzer._generate_css_selector\<close>.\<close>

definition generate_css_selector :: "web_element \<Rightarrow> string" where
  "generate_css_selector e =
     (let element_id = get_attribute e ''id'';
          data_test = get_attribute e ''data-test'';
          data_testid = get_attribute e ''data-testid'';
          name = get_attribute e ''name'';
          placeholder = get_attribute e ''placeholder'';
          class_name = get_attribute e ''class'';
          first_class = (case py_split (or_else class_name '''') of [] \<Rightarrow> '''' | c # _ \<Rightarrow> c);
          txt = strip (we_text e)
      in
      if truthy element_id then ''#'' @ the element_id
      else if truthy data_test then ''[data-test='' @ sq @ the data_test @ sq @ '']''
      else if truthy data_testid then ''[data-testid='' @ sq @ the data_testid @ sq @ '']''
      else if truthy name then we_tag_name e @ ''[name='' @ sq @ the name @ sq @ '']''
      else if we_tag_name e \<in> set [''input'', ''textarea''] \<and> truthy placeholder
      then we_tag_name e @ ''[placeholder='' @ sq @ the placeholder @ sq @ '']''
      else if truthy class_name \<and> first_class \<noteq> '''' \<and>
              \<not> (prefix ''ng-'' first_class \<or> prefix ''ui-'' first_class)
      then we_tag_name e @ ''.'' @ first_class
      else if txt \<noteq> '''' \<and> length txt < 50
      then we_tag_name e @ '':contains('' @ sq @ escape_quotes txt @ sq @ '')''
      else we_tag_name e)"

section \<open>Element extraction\<close>

text \<open>
  The attributes dictionary of an extracted element: for each name of the allow-list,
  in order, the attribute's value when it is present and non-empty.
\<close>

definition extract_attributes :: "string list \<Rightarrow> web_element \<Rightarrow> (string \<rightharpoonup> string)" where
  "extract_attributes attrs e =
     map_of (rev (List.map_filter
       (\<lambda>a. if truthy (get_attribute e a) then Some (a, the (get_attribute e a)) else None)
       attrs))"

subsection \<open>ElementParser (element_parser.py)\<close>

record config =
  max_pages :: int
  max_depth :: int
  elements_to_find :: "string list"
  attributes_to_extract :: "string list"
  skip_hidden_elements :: bool
  take_screenshots :: bool

text \<open>The defaults that the code passes to \<^verbatim>\<open>config.get\<close>.\<close>

definition default_config :: config where
  "default_config =
     \<lparr>max_pages = 20, max_depth = 2,
      elements_to_find =
        [''a'', ''button'', ''input'', ''select'', ''textarea'',
         ''[role='' @ sq @ ''button'' @ sq @ '']'', ''[role='' @ sq @ ''link'' @ sq @ '']'',
         ''[role='' @ sq @ ''checkbox'' @ sq @ '']'', ''[role='' @ sq @ ''radio'' @ sq @ '']''],
      attributes_to_extract =
        [''id'', ''class'', ''name'', ''type'', ''href'', ''value'', ''placeholder'',
         ''role'', ''aria-label'', ''title'', ''data-testid''],
      skip_hidden_elements = True,
      take_screenshots = False\<rparr>"

record parsed_element =
  pe_page_url :: string
  pe_page_title :: string
  pe_tag_name :: string
  pe_text :: string
  pe_is_displayed :: bool
  pe_is_enabled :: bool
  pe_location :: "int \<times> int"
  pe_size :: "int \<times> int"
  pe_attributes :: "string \<rightharpoonup> string"
  pe_element_type :: string
  pe_screenshot :: "string option"

text \<open>\<^verbatim>\<open>ElementParser._extract_element_data\<close>: \<^verbatim>\<open>None\<close> for a skipped element.\<close>

definition ElementParser_extract_element_data ::
  "config \<Rightarrow> web_element \<Rightarrow> string \<Rightarrow> string \<Rightarrow> parsed_element option" where
  "ElementParser_extract_element_data cfg e page_url page_title =
     (if skip_hidden_elements cfg \<and> \<not> we_is_displayed e then None
      else Some
        \<lparr>pe_page_url = page_url,
         pe_page_title = page_title,
         pe_tag_name = we_tag_name e,
         pe_text = (if we_text e \<noteq> [] then strip (we_text e) else []),
         pe_is_displayed = we_is_displayed e,
         pe_is_enabled = (if we_tag_name e \<noteq> ''a'' then we_is_enabled e else True),
         pe_location = we_location e,
         pe_size = we_size e,
         pe_attributes = extract_attributes (attributes_to_extract cfg) e,
         pe_element_type = ElementParser_categorize_element e,
         pe_screenshot =
           (if take_screenshots cfg \<and> we_is_displayed e then we_screenshot e else None)\<rparr>)"

text \<open>
  A rendered page, as the driver shows it: its title and source, the elements matching a
  CSS selector (\<^verbatim>\<open>None\<close> when the query raises) and the anchors found by tag name
  (\<^verbatim>\<open>None\<close> when that query raises).
\<close>

record page =
  pg_title :: string
  pg_source :: string
  pg_find_elements :: "string \<Rightarrow> web_element list option"
  pg_anchors :: "web_element list option"

text \<open>\<^verbatim>\<open>ElementParser.extract_elements\<close>: a selector whose query raises adds nothing.\<close>

definition extract_elements :: "config \<Rightarrow> page \<Rightarrow> string \<Rightarrow> parsed_element list" where
  "extract_elements cfg pg page_url =
     concat (map
       (\<lambda>selector. case pg_find_elements pg selector of
            None \<Rightarrow> []
          | Some elements \<Rightarrow>
              List.map_filter
                (\<lambda>e. ElementParser_extract_element_data cfg e page_url (pg_title pg)) elements)
       (elements_to_find cfg))"

subsection \<open>EnhancedAnalyzer (enhanced_analyzer.py)\<close>

record action =
  ac_type :: string
  ac_value :: "string option"
  ac_cypress :: string

definition cy_get :: "string \<Rightarrow> string" where
  "cy_get selector = ''cy.get('' @ sq @ selector @ sq @ '')''"

text \<open>\<^verbatim>\<open>EnhancedAnalyzer._determine_possible_actions\<close>.\<close>

definition determine_possible_actions :: "web_element \<Rightarrow> action list" where
  "determine_possible_actions e =
     (let element_type = EnhancedAnalyzer_categorize_element e;
          sel = generate_css_selector e
      in
      if element_type \<in> set [''link'', ''button'', ''submit'', ''pseudo_button'', ''pseudo_dropdown'']
      then [\<lparr>ac_type = ''click'', ac_value = None, ac_cypress = cy_get sel @ ''.click()''\<rparr>]
      else if element_type \<in> set [''input_field'', ''text_area''] then
        (let placeholder = or_else (get_attribute e ''placeholder'') [];
             input_type = or_else (get_attribute e ''type'') [];
             sample_text =
               (if sublist ''email'' (lower input_type) \<or> sublist ''email'' (lower placeholder)
                then ''test@example.com''
                else if sublist ''password'' (lower input_type) \<or>
                        sublist ''password'' (lower placeholder)
                then ''Password123''
                else ''Test input'')
         in [\<lparr>ac_type = ''input'', ac_value = Some sample_text,
              ac_cypress = cy_get sel @ ''.type('' @ sq @ sample_text @ sq @ '')''\<rparr>])
      else if element_type = ''dropdown''
      then [\<lparr>ac_type = ''select'', ac_value = None,
             ac_cypress = cy_get sel @ ''.select('' @ sq @ ''OPTION_VALUE'' @ sq @ '')''\<rparr>]
      else if element_type \<in> set [''checkbox'', ''radio'']
      then [\<lparr>ac_type = ''check'', ac_value = None, ac_cypress = cy_get sel @ ''.check()''\<rparr>]
      else [])"

record element_data =
  tag_name :: string
  el_text :: string
  is_displayed :: bool
  is_enabled :: bool
  location_x :: int
  location_y :: int
  attributes :: "string \<rightharpoonup> string"
  element_type :: string
  css_selector :: string
  actions :: "action list"

definition EnhancedAnalyzer_attrs :: "string list" where
  "EnhancedAnalyzer_attrs =
     [''id'', ''class'', ''name'', ''type'', ''href'', ''value'', ''placeholder'',
      ''role'', ''aria-label'', ''data-test'', ''data-testid'']"

text \<open>\<^verbatim>\<open>EnhancedAnalyzer._extract_element_data\<close>: \<^verbatim>\<open>None\<close> for a hidden element.\<close>

definition EnhancedAnalyzer_extract_element_data :: "web_element \<Rightarrow> element_data option" where
  "EnhancedAnalyzer_extract_element_data e =
     (if \<not> we_is_displayed e then None
      else Some
        \<lparr>tag_name = we_tag_name e,
         el_text = (if we_text e \<noteq> [] then strip (we_text e) else []),
         is_displayed = we_is_displayed e,
         is_enabled = (if we_tag_name e \<noteq> ''a'' then we_is_enabled e else True),
         location_x = fst (we_location e),
         location_y = snd (we_location e),
         attributes = extract_attributes EnhancedAnalyzer_attrs e,
         element_type = EnhancedAnalyzer_categorize_element e,
         css_selector = generate_css_selector e,
         actions = determine_possible_actions e\<rparr>)"

definition dq :: string where
  "dq = [CHR 0x22]"

definition interactive_selectors :: "string list" where
  "interactive_selectors =
     [''a'', ''button'', ''input'', ''select'', ''textarea'',
      ''[role='' @ dq @ ''button'' @ dq @ '']'', ''[role='' @ dq @ ''link'' @ dq @ '']'',
      ''[role='' @ dq @ ''checkbox'' @ dq @ '']'', ''[role='' @ dq @ ''radio'' @ dq @ '']'',
      ''[role='' @ dq @ ''tab'' @ dq @ '']'']"

text \<open>\<^verbatim>\<open>EnhancedAnalyzer.find_interactive_elements\<close> on the driver's current page.\<close>

definition find_interactive_elements :: "page \<Rightarrow> element_data list" where
  "find_interactive_elements pg =
     concat (map
       (\<lambda>selector. case pg_find_elements pg selector of
            None \<Rightarrow> []
          | Some elements \<Rightarrow> List.map_filter EnhancedAnalyzer_extract_element_data elements)
       interactive_selectors)"

section \<open>Flow inference (enhanced_analyzer.py)\<close>

record step =
  st_element :: string
  st_action :: string
  st_value :: "string option"
  st_description :: string
  st_cypress :: string

record flow =
  fl_name :: string
  fl_description :: string
  fl_steps :: "step list"

definition input_step :: "element_data \<Rightarrow> string \<Rightarrow> string \<Rightarrow> step" where
  "input_step field v descr =
     \<lparr>st_element = css_selector field, st_action = ''input'', st_value = Some v,
      st_description = descr,
      st_cypress = cy_get (css_selector field) @ ''.type('' @ sq @ v @ sq @ '')''\<rparr>"

definition click_step :: "element_data \<Rightarrow> string \<Rightarrow> step" where
  "click_step button descr =
     \<lparr>st_element = css_selector button, st_action = ''click'', st_value = None,
      st_description = descr,
      st_cypress = cy_get (css_selector button) @ ''.click()''\<rparr>"

subsection \<open>Login flow\<close>

definition is_password_field :: "element_data \<Rightarrow> bool" where
  "is_password_field field =
     (let attrs = attributes field;
          field_type = dict_get attrs ''type'' [];
          placeholder = lower (dict_get attrs ''placeholder'' []);
          name = lower (dict_get attrs ''name'' [])
      in field_type = ''password'' \<or> sublist ''password'' name \<or>
         sublist ''password'' placeholder)"

definition is_username_field :: "element_data \<Rightarrow> bool" where
  "is_username_field field =
     (let attrs = attributes field;
          field_type = dict_get attrs ''type'' [];
          placeholder = lower (dict_get attrs ''placeholder'' []);
          name = lower (dict_get attrs ''name'' [])
      in field_type \<in> set [''text'', ''email''] \<or>
         any_in [''user'', ''email'', ''name'', ''login''] name \<or>
         any_in [''user'', ''email'', ''name'', ''login''] placeholder)"

text \<open>
  One round of the loop over the input fields; the pair is
  \<^verbatim>\<open>(username_field, password_field)\<close>.
\<close>

definition login_field_step ::
  "element_data option \<times> element_data option \<Rightarrow> element_data \<Rightarrow>
   element_data option \<times> element_data option" where
  "login_field_step acc field =
     (if is_password_field field then (fst acc, Some field)
      else if is_username_field field then (Some field, snd acc)
      else acc)"

definition is_login_button :: "element_data \<Rightarrow> bool" where
  "is_login_button button =
     any_in [''log in'', ''login'', ''sign in'', ''signin'', ''submit''] (lower (el_text button))"

definition login_flow :: "element_data \<Rightarrow> element_data \<Rightarrow> element_data \<Rightarrow> flow" where
  "login_flow username_field password_field login_button =
     \<lparr>fl_name = ''User Authentication'',
      fl_description = ''Log into the application'',
      fl_steps =
        [input_step username_field ''standard_user'' ''Enter username'',
         input_step password_field ''secret_sauce'' ''Enter password'',
         click_step login_button ''Click login button'']\<rparr>"

text \<open>\<^verbatim>\<open>EnhancedAnalyzer._identify_login_flow\<close>.\<close>

definition identify_login_flow :: "element_data list \<Rightarrow> element_data list \<Rightarrow> flow option" where
  "identify_login_flow input_fields buttons =
     (let found = foldl login_field_step (None, None) input_fields;
          login_button = find is_login_button buttons
      in case (fst found, snd found, login_button) of
           (Some username_field, Some password_field, Some button) \<Rightarrow>
             Some (login_flow username_field password_field button)
         | _ \<Rightarrow> None)"

subsection \<open>Form submission flow\<close>

definition is_submit_button :: "element_data \<Rightarrow> bool" where
  "is_submit_button button =
     (let txt = lower (el_text button);
          attrs = attributes button
      in (txt \<noteq> [] \<and> any_in [''submit'', ''save'', ''send'', ''create'', ''add''] txt) \<or>
         attrs ''type'' = Some ''submit'')"

text \<open>
  \<^verbatim>\<open>min(candidates, key=...)\<close>: the first element whose key is minimal
  (\<^verbatim>\<open>m\<close> is the best so far).
\<close>

fun min_by :: "('a \<Rightarrow> int) \<Rightarrow> 'a \<Rightarrow> 'a list \<Rightarrow> 'a" where
  "min_by f m [] = m"
| "min_by f m (x # xs) = min_by f (if f x < f m then x else m) xs"

text \<open>
  The list \<^verbatim>\<open>candidates\<close> of \<^verbatim>\<open>_identify_form_flow\<close>: the buttons whose
  y-coordinate is greater than \<^verbatim>\<open>input_bottom\<close>, the greatest y-coordinate of an input
  field.
\<close>

definition candidates :: "element_data list \<Rightarrow> element_data list \<Rightarrow> element_data list" where
  "candidates input_fields buttons =
     (let input_bottom = Max (set (map location_y input_fields))
      in filter (\<lambda>b. location_y b > input_bottom) buttons)"

text \<open>
  The three stages that settle \<^verbatim>\<open>submit_button\<close> in
  \<^verbatim>\<open>_identify_form_flow\<close>; the input fields are not empty here.
\<close>

definition resolve_submit_button ::
  "element_data list \<Rightarrow> element_data list \<Rightarrow> element_data option" where
  "resolve_submit_button input_fields buttons =
     (case find is_submit_button buttons of
        Some b \<Rightarrow> Some b
      | None \<Rightarrow>
          (case candidates input_fields buttons of
             c # cs \<Rightarrow> Some (min_by location_y c cs)
           | [] \<Rightarrow> (if buttons \<noteq> [] then Some (last buttons) else None)))"

definition form_test_value :: "element_data \<Rightarrow> string" where
  "form_test_value field =
     (let attrs = attributes field;
          placeholder = dict_get attrs ''placeholder'' [];
          name = dict_get attrs ''name'' [];
          field_type = dict_get attrs ''type'' []
      in if field_type = ''email'' \<or> sublist ''email'' (lower name) then ''test@example.com''
         else if sublist ''name'' (lower name) \<or> sublist ''name'' (lower placeholder)
         then ''Test User''
         else if sublist ''phone'' (lower name) \<or> sublist ''phone'' (lower placeholder)
         then ''555-123-4567''
         else if sublist ''zip'' (lower name) \<or> sublist ''postal'' (lower name) then ''12345''
         else ''Test input'')"

definition form_field_step :: "element_data \<Rightarrow> step" where
  "form_field_step field =
     (let attrs = attributes field;
          placeholder = dict_get attrs ''placeholder'' [];
          name = dict_get attrs ''name'' [];
          test_value = form_test_value field
      in input_step field test_value
           (''Enter '' @ test_value @ '' in '' @
            (if placeholder \<noteq> [] then placeholder else if name \<noteq> [] then name else ''field'')))"

definition form_flow :: "element_data list \<Rightarrow> element_data \<Rightarrow> flow" where
  "form_flow input_fields submit_button =
     \<lparr>fl_name = ''Form Submission'',
      fl_description = ''Fill out and submit a form'',
      fl_steps =
        map form_field_step (take 5 input_fields) @
        [click_step submit_button (''Click '' @ el_text submit_button)]\<rparr>"

text \<open>\<^verbatim>\<open>EnhancedAnalyzer._identify_form_flow\<close>.\<close>

definition identify_form_flow :: "element_data list \<Rightarrow> element_data list \<Rightarrow> flow option" where
  "identify_form_flow input_fields buttons =
     (if input_fields = [] \<or> buttons = [] then None
      else if length input_fields \<le> 2 then None
      else case resolve_submit_button input_fields buttons of
             Some submit_button \<Rightarrow> Some (form_flow input_fields submit_button)
           | None \<Rightarrow> None)"

subsection \<open>All flows\<close>

definition nav_flow :: "element_data list \<Rightarrow> flow" where
  "nav_flow links =
     \<lparr>fl_name = ''Navigation'',
      fl_description = ''Navigate through site links'',
      fl_steps =
        map (\<lambda>link. click_step link
               (''Click '' @ (if el_text link \<noteq> [] then el_text link else ''link'')))
          (take 5 (sort_key location_y links))\<rparr>"

definition opt_list :: "'a option \<Rightarrow> 'a list" where
  "opt_list x = (case x of None \<Rightarrow> [] | Some y \<Rightarrow> [y])"

text \<open>\<^verbatim>\<open>EnhancedAnalyzer.generate_user_flows\<close>.\<close>

definition generate_user_flows :: "element_data list \<Rightarrow> flow list" where
  "generate_user_flows elements =
     (if elements = [] then []
      else
        (let input_fields =
               filter (\<lambda>e. element_type e \<in> set [''input_field'', ''text_area'']) elements;
             buttons = filter (\<lambda>e. element_type e \<in> set [''button'', ''submit'']) elements;
             links = filter (\<lambda>e. element_type e = ''link'') elements
         in opt_list (identify_login_flow input_fields buttons) @
            opt_list (identify_form_flow input_fields buttons) @
            (if links \<noteq> [] then [nav_flow links] else [])))"

section \<open>The browser\<close>

text \<open>
  What the code needs of Selenium: whether a browser session starts (and the exception
  raised when it does not), the page a fresh session shows, and for each URL whether
  \<^verbatim>\<open>driver.get\<close> raises or which page it renders. A site answers a URL the same
  way each time it is asked.
\<close>

datatype exn = Exception string

datatype launch = Starts | Fails exn

datatype page_load = LoadError exn | Loaded page

record browser_env =
  chrome :: launch
  firefox :: launch
  initial_page :: page
  web :: "string \<Rightarrow> page_load"

section \<open>URL filter (selenium_crawler.py)\<close>

text \<open>
  \<^verbatim>\<open>urllib.parse.urlsplit\<close> of the standard library on ASCII text, for the URLs on
  which it does not raise: an optional scheme before the first colon, the network
  location between \<^verbatim>\<open>//\<close> and the next \<^verbatim>\<open>/\<close>, \<^verbatim>\<open>?\<close> or \<^verbatim>\<open>#\<close>, then
  the fragment and the query are split off the path. \<^verbatim>\<open>urlparse\<close> returns the
  same scheme and network location.
\<close>

record split_result =
  sr_scheme :: string
  sr_netloc :: string
  sr_path :: string
  sr_query :: string
  sr_fragment :: string

definition is_alpha :: "char \<Rightarrow> bool" where
  "is_alpha c = (let n = (of_char c :: nat) in (65 \<le> n \<and> n \<le> 90) \<or> (97 \<le> n \<and> n \<le> 122))"

definition is_scheme_char :: "char \<Rightarrow> bool" where
  "is_scheme_char c =
     (let n = (of_char c :: nat) in
      is_alpha c \<or> (48 \<le> n \<and> n \<le> 57) \<or> c \<in> set ''+-.'')"

definition urlsplit :: "string \<Rightarrow> split_result" where
  "urlsplit url =
     (let before = takeWhile (\<lambda>c. c \<noteq> CHR '':'') url;
          has_scheme = (CHR '':'' \<in> set url \<and> before \<noteq> [] \<and> is_alpha (hd before) \<and>
                        list_all is_scheme_char before);
          scheme = (if has_scheme then lower before else []);
          url1 = (if has_scheme then drop (length before + 1) url else url);
          has_netloc = prefix ''//'' url1;
          netloc = (if has_netloc
                    then takeWhile (\<lambda>c. c \<notin> set ''/?#'') (drop 2 url1) else []);
          url2 = (if has_netloc
                  then dropWhile (\<lambda>c. c \<notin> set ''/?#'') (drop 2 url1) else url1);
          url3 = takeWhile (\<lambda>c. c \<noteq> CHR ''#'') url2;
          fragment = drop (length url3 + 1) url2;
          path = takeWhile (\<lambda>c. c \<noteq> CHR ''?'') url3;
          query = drop (length path + 1) url3
      in \<lparr>sr_scheme = scheme, sr_netloc = netloc, sr_path = path, sr_query = query,
          sr_fragment = fragment\<rparr>)"

text \<open>\<^verbatim>\<open>SeleniumCrawler.extract_domain\<close>.\<close>

definition extract_domain :: "string \<Rightarrow> string" where
  "extract_domain url = sr_netloc (urlsplit url)"

datatype driver_state = Active | Closed

record crawler =
  cr_driver :: "driver_state option"
  visited_urls :: "string set"
  queue :: "string list"
  base_url :: string
  domain :: string

definition excluded_extensions :: "string list" where
  "excluded_extensions =
     [''.pdf'', ''.jpg'', ''.jpeg'', ''.png'', ''.gif'', ''.css'', ''.js'', ''.ico'']"

text \<open>\<^verbatim>\<open>SeleniumCrawler.should_crawl_url\<close>.\<close>

definition should_crawl_url :: "'a crawler_scheme \<Rightarrow> string \<Rightarrow> bool" where
  "should_crawl_url self url =
     (if url \<in> visited_urls self then False
      else if \<not> sublist (domain self) (extract_domain url) then False
      else if \<not> (prefix ''http://'' url \<or> prefix ''https://'' url) then False
      else if list_ex (\<lambda>ext. suffix ext (lower url)) excluded_extensions then False
      else True)"

section \<open>Crawl controller (selenium_crawler.py)\<close>

text \<open>
  The object's fields together with the local variables of \<^verbatim>\<open>start_crawl\<close>.
  \<^verbatim>\<open>driver_get_calls\<close> records each call of \<^verbatim>\<open>driver.get\<close> with the depth at
  which it was made.
\<close>

record crawl_state = crawler +
  all_elements_data :: "parsed_element list"
  current_depth :: int
  pages_visited :: int
  depth_urls :: "int \<rightharpoonup> string list"
  driver_get_calls :: "(string \<times> int) list"

text \<open>One round of the loop over the links of a page.\<close>

definition enqueue_link :: "crawl_state \<Rightarrow> web_element \<Rightarrow> crawl_state" where
  "enqueue_link s link =
     (let href = get_attribute link ''href'' in
      if truthy href \<and> should_crawl_url s (the href) then
        (case depth_urls s (current_depth s + 1) of
           None \<Rightarrow> s
         | Some us \<Rightarrow> s\<lparr>depth_urls := (depth_urls s)(current_depth s + 1 \<mapsto> us @ [the href])\<rparr>)
      else s)"

text \<open>One round of the loop over the URLs of the current depth.\<close>

definition crawl_url :: "browser_env \<Rightarrow> config \<Rightarrow> crawl_state \<Rightarrow> string \<Rightarrow> crawl_state" where
  "crawl_url env cfg s url =
     (if url \<in> visited_urls s \<or> \<not> should_crawl_url s url then s
      else
        (let s0 = s\<lparr>driver_get_calls := driver_get_calls s @ [(url, current_depth s)]\<rparr> in
         case web env url of
           LoadError e \<Rightarrow> s0
         | Loaded pg \<Rightarrow>
             (let s1 = s0\<lparr>visited_urls := insert url (visited_urls s0),
                          pages_visited := pages_visited s0 + 1,
                          all_elements_data :=
                            all_elements_data s0 @ extract_elements cfg pg url\<rparr>
              in case pg_anchors pg of
                   None \<Rightarrow> s1
                 | Some links \<Rightarrow> foldl enqueue_link s1 links)))"

text \<open>
  The \<^verbatim>\<open>while\<close> loop of \<^verbatim>\<open>start_crawl\<close>. Each round sets the list of the next
  depth to empty, runs over the URLs of the current depth and moves one level down.
\<close>

function crawl_loop :: "browser_env \<Rightarrow> config \<Rightarrow> crawl_state \<Rightarrow> crawl_state" where
  "crawl_loop env cfg s =
     (if queue s \<noteq> [] \<and> pages_visited s < max_pages cfg \<and> current_depth s \<le> max_depth cfg
      then
        (let urls_at_current_depth =
               (case depth_urls s (current_depth s) of None \<Rightarrow> [] | Some us \<Rightarrow> us);
             s1 = s\<lparr>depth_urls := (depth_urls s)(current_depth s + 1 \<mapsto> [])\<rparr>;
             s2 = foldl (crawl_url env cfg) s1 urls_at_current_depth
         in crawl_loop env cfg (s2\<lparr>current_depth := current_depth s2 + 1\<rparr>))
      else s)"
  by pat_completeness auto
termination
proof (relation "measure (\<lambda>(env, cfg, s). nat (max_depth cfg + 1 - current_depth s))")
  have link: "current_depth (foldl enqueue_link s ls) = current_depth s" for s ls
    by (induction ls arbitrary: s) (simp_all add: enqueue_link_def Let_def split: option.splits)
  have url: "current_depth (crawl_url env cfg s u) = current_depth s" for env cfg s u
    by (simp add: crawl_url_def Let_def link split: page_load.splits option.splits)
  have level: "current_depth (foldl (crawl_url env cfg) s us) = current_depth s" for env cfg s us
    by (induction us arbitrary: s) (simp_all add: url)
  show "wf (measure (\<lambda>(env, cfg, s). nat (max_depth cfg + 1 - current_depth s)))"
    by simp
  show "((env, cfg,
          x2\<lparr>current_depth := current_depth x2 + 1\<rparr>), env, cfg, s)
        \<in> measure (\<lambda>(env, cfg, s). nat (max_depth cfg + 1 - current_depth s))"
    if "queue s \<noteq> [] \<and> pages_visited s < max_pages cfg \<and> current_depth s \<le> max_depth cfg"
      and "x = (case depth_urls s (current_depth s) of None \<Rightarrow> [] | Some us \<Rightarrow> us)"
      and "xa = s\<lparr>depth_urls := (depth_urls s)(current_depth s + 1 \<mapsto> [])\<rparr>"
      and "x2 = foldl (crawl_url env cfg) xa x"
    for env cfg s x xa x2
    using that by (simp add: level)
qed

declare crawl_loop.simps [simp del]

definition quit_driver :: "crawler \<Rightarrow> crawler" where
  "quit_driver self = (if cr_driver self \<noteq> None then self\<lparr>cr_driver := Some Closed\<rparr> else self)"

text \<open>The state in which the \<^verbatim>\<open>while\<close> loop of \<^verbatim>\<open>start_crawl\<close> starts.\<close>

definition crawl_init :: "crawler \<Rightarrow> string \<Rightarrow> crawl_state" where
  "crawl_init self start_url =
     crawler.extend
       (self\<lparr>base_url := start_url, domain := extract_domain start_url,
             visited_urls := {}, queue := [start_url], cr_driver := Some Active\<rparr>)
       (crawl_state.fields [] 0 0 [0 \<mapsto> [start_url]] [])"

text \<open>
  \<^verbatim>\<open>SeleniumCrawler.start_crawl\<close>: the result is the exception that leaves the call
  or the list returned, together with the object after the \<^verbatim>\<open>finally\<close> block.
\<close>

definition start_crawl ::
  "browser_env \<Rightarrow> config \<Rightarrow> crawler \<Rightarrow> string \<Rightarrow> (exn + parsed_element list) \<times> crawler" where
  "start_crawl env cfg self start_url =
     (case chrome env of
        Fails e \<Rightarrow>
          (Inl e,
           quit_driver (self\<lparr>base_url := start_url, domain := extract_domain start_url,
                              visited_urls := {}, queue := [start_url]\<rparr>))
      | Starts \<Rightarrow>
          (let s = crawl_loop env cfg (crawl_init self start_url)
           in (Inr (all_elements_data s), quit_driver (crawler.truncate s))))"

section \<open>Page analysis (enhanced_analyzer.py)\<close>






subsection \<open>Test script generator\<close>






subsection \<open>The analysis entry point\<close>





section \<open>Example inputs\<close>

text \<open>A displayed element that the browser reports as disabled, with the given tag and attributes.\<close>

definition example_element :: "string \<Rightarrow> (string \<times> string) list \<Rightarrow> web_element" where
  "example_element tag attrs =
     \<lparr>we_tag_name = tag, we_text = [], get_attribute = map_of attrs, we_is_displayed = True,
      we_is_enabled = False, we_location = (0, 0), we_size = (10, 10), we_screenshot = None,
      we_parent_tag = ''body''\<rparr>"

text \<open>An extracted element with the given type, text, attributes, y-coordinate and locator.\<close>

definition example_data ::
  "string \<Rightarrow> string \<Rightarrow> (string \<times> string) list \<Rightarrow> int \<Rightarrow> string \<Rightarrow> element_data" where
  "example_data etype txt attrs y selector =
     \<lparr>tag_name = ''input'', el_text = txt, is_displayed = True, is_enabled = True,
      location_x = 0, location_y = y, attributes = map_of attrs, element_type = etype,
      css_selector = selector, actions = []\<rparr>"

text \<open>Three input fields, the lowest of them at y = 30.\<close>

definition example_inputs :: "element_data list" where
  "example_inputs =
     [example_data ''input_field'' [] [(''name'', ''first'')] 10 ''#first'',
      example_data ''input_field'' [] [(''name'', ''last'')] 20 ''#last'',
      example_data ''text_area'' [] [(''name'', ''notes'')] 30 ''#notes'']"

text \<open>A crawler object as the constructor leaves it, with the given domain.\<close>

definition example_crawler :: "string \<Rightarrow> crawler" where
  "example_crawler target =
     \<lparr>cr_driver = None, visited_urls = {}, queue = [], base_url = [], domain = target\<rparr>"

text \<open>A page without elements whose anchors point to the given URLs.\<close>

definition link_page :: "string list \<Rightarrow> page" where
  "link_page hrefs =
     \<lparr>pg_title = ''page'', pg_source = [], pg_find_elements = (\<lambda>selector. Some []),
      pg_anchors = Some (map (\<lambda>h. example_element ''a'' [(''href'', h)]) hrefs)\<rparr>"

text \<open>A site of three pages: the start page links to the two others, which have no links.\<close>

definition example_site :: browser_env where
  "example_site =
     \<lparr>chrome = Starts, firefox = Starts, initial_page = link_page [],
      web = (\<lambda>url. if url = ''http://a.com/''
                    then Loaded (link_page [''http://a.com/1'', ''http://a.com/2''])
                    else Loaded (link_page []))\<rparr>"


section \<open>The specification's wording\<close>



text \<open>What the specification counts as an input-like element in the form detector.\<close>

definition input_like :: "element_data \<Rightarrow> bool" where
  "input_like e = (element_type e \<in> set [''input_field'', ''text_area'', ''dropdown''])"

text \<open>
  The second stage of the submit-button search as the specification words it: of the
  buttons below the bottommost input field, the one positioned lowest on the page, that is
  the one with the greatest y-coordinate.
\<close>

fun max_by :: "('a \<Rightarrow> int) \<Rightarrow> 'a \<Rightarrow> 'a list \<Rightarrow> 'a" where
  "max_by f m [] = m"
| "max_by f m (x # xs) = max_by f (if f x > f m then x else m) xs"

definition spec_submit_button ::
  "element_data list \<Rightarrow> element_data list \<Rightarrow> element_data option" where
  "spec_submit_button input_fields buttons =
     (case find is_submit_button buttons of
        Some b \<Rightarrow> Some b
      | None \<Rightarrow>
          (case candidates input_fields buttons of
             c # cs \<Rightarrow> Some (max_by location_y c cs)
           | [] \<Rightarrow> (if buttons \<noteq> [] then Some (last buttons) else None)))"

section \<open>Properties of the classifier\<close>

lemma categorize_input_documented: "documented_category (categorize_input e)"
  by (cases "get_attribute e ''type''")
     (simp_all add: categorize_input_def documented_category_def Let_def)

lemma ElementParser_category_documented:
  "documented_category (ElementParser_categorize_element e)"
proof (cases "truthy (get_attribute e ''role'') \<and>
              opt_in (get_attribute e ''role'') ElementParser_roles")
  case True
  then obtain r where "get_attribute e ''role'' = Some r" "r \<in> set ElementParser_roles"
    by (cases "get_attribute e ''role''") auto
  then show ?thesis using True
    by (simp add: ElementParser_categorize_element_def Let_def documented_category_def)
next
  case False
  have lits: "documented_category ''link''" "documented_category ''button''"
    "documented_category ''dropdown''" "documented_category ''text_area''"
    "documented_category ''form''" "documented_category ''pseudo_button''"
    "documented_category ''icon_link''" "documented_category ''icon''"
    "documented_category ''other''"
    by (simp_all add: documented_category_def)
  show ?thesis
    unfolding ElementParser_categorize_element_def Let_def
    using False lits categorize_input_documented [of e]
    by (auto simp del: set_simps opt_in.simps)
qed

lemma EnhancedAnalyzer_category_documented:
  "documented_category (EnhancedAnalyzer_categorize_element e) \<or>
   EnhancedAnalyzer_categorize_element e = ''pseudo_dropdown''"
proof (cases "truthy (get_attribute e ''role'') \<and>
              opt_in (get_attribute e ''role'') EnhancedAnalyzer_roles")
  case True
  then obtain r where "get_attribute e ''role'' = Some r" "r \<in> set EnhancedAnalyzer_roles"
    by (cases "get_attribute e ''role''") auto
  moreover have "set EnhancedAnalyzer_roles \<subseteq> set ElementParser_roles"
    by (simp add: EnhancedAnalyzer_roles_def ElementParser_roles_def)
  ultimately show ?thesis using True
    by (auto simp add: EnhancedAnalyzer_categorize_element_def Let_def documented_category_def)
next
  case False
  have lits: "documented_category ''link''" "documented_category ''button''"
    "documented_category ''dropdown''" "documented_category ''text_area''"
    "documented_category ''pseudo_button''" "documented_category ''other''"
    by (simp_all add: documented_category_def)
  show ?thesis
    unfolding EnhancedAnalyzer_categorize_element_def Let_def
    using False lits categorize_input_documented [of e]
    by (auto simp del: set_simps opt_in.simps)
qed

lemma ElementParser_role_first:
  assumes "get_attribute e ''role'' = Some r" and "r \<in> set ElementParser_roles"
  shows "ElementParser_categorize_element e = r"
proof -
  have "r \<noteq> []" using assms(2) by (auto simp: ElementParser_roles_def)
  then show ?thesis using assms by (simp add: ElementParser_categorize_element_def Let_def)
qed

lemma EnhancedAnalyzer_role_first:
  assumes "get_attribute e ''role'' = Some r" and "r \<in> set EnhancedAnalyzer_roles"
  shows "EnhancedAnalyzer_categorize_element e = r"
proof -
  have "r \<noteq> []" using assms(2) by (auto simp: EnhancedAnalyzer_roles_def)
  then show ?thesis using assms by (simp add: EnhancedAnalyzer_categorize_element_def Let_def)
qed

text \<open>
  C2, as stated, fails on the analyzer's classifier: a \<^verbatim>\<open>div\<close> whose class contains
  \<^verbatim>\<open>dropdown\<close> is classified \<^verbatim>\<open>pseudo_dropdown\<close>, which is none of the documented
  categories, and the role \<^verbatim>\<open>menu\<close> is not among the roles that classifier
  recognizes, so an anchor with that role stays a \<^verbatim>\<open>link\<close>.
\<close>

theorem classify_documented_counterexample:
  "\<not> documented_category
        (EnhancedAnalyzer_categorize_element (example_element ''div'' [(''class'', ''dropdown'')])) \<and>
   EnhancedAnalyzer_categorize_element (example_element ''a'' [(''role'', ''menu'')]) \<noteq> ''menu''"
  by (simp add: EnhancedAnalyzer_categorize_element_def example_element_def lower_def
      lower_char_def any_in_def EnhancedAnalyzer_roles_def documented_category_def
      ElementParser_roles_def sublist_code prefix_code)

text \<open>
  C2, amended: both classifiers are total functions of the element. The parser's
  classifier returns one of the documented categories; the analyzer's classifier returns
  one of them or \<^verbatim>\<open>pseudo_dropdown\<close>. In each classifier a role attribute from its
  own list of recognized roles (twelve roles in the parser, six in the analyzer) is
  returned as the category, whatever the tag and the class are.
\<close>

theorem classify_total_role_first:
  "documented_category (ElementParser_categorize_element e) \<and>
   (documented_category (EnhancedAnalyzer_categorize_element e) \<or>
    EnhancedAnalyzer_categorize_element e = ''pseudo_dropdown'') \<and>
   (get_attribute e ''role'' = Some r \<and> r \<in> set ElementParser_roles \<longrightarrow>
      ElementParser_categorize_element e = r) \<and>
   (get_attribute e ''role'' = Some r \<and> r \<in> set EnhancedAnalyzer_roles \<longrightarrow>
      EnhancedAnalyzer_categorize_element e = r)"
  using ElementParser_category_documented EnhancedAnalyzer_category_documented
    ElementParser_role_first EnhancedAnalyzer_role_first
  by blast

theorem classify_total_role_first_witness:
  "ElementParser_categorize_element
     (example_element ''div'' [(''role'', ''button''), (''class'', ''btn'')]) = ''button'' \<and>
   EnhancedAnalyzer_categorize_element
     (example_element ''div'' [(''role'', ''button''), (''class'', ''btn'')]) = ''button'' \<and>
   ElementParser_categorize_element (example_element ''div'' [(''class'', ''btn'')])
     = ''pseudo_button''"
proof -
  let ?e = "example_element ''div'' [(''role'', ''button''), (''class'', ''btn'')]"
  have role: "get_attribute ?e ''role'' = Some ''button''"
    by (simp add: example_element_def)
  have mem: "''button'' \<in> set ElementParser_roles" "''button'' \<in> set EnhancedAnalyzer_roles"
    by (simp_all add: ElementParser_roles_def EnhancedAnalyzer_roles_def)
  have other: "ElementParser_categorize_element (example_element ''div'' [(''class'', ''btn'')])
     = ''pseudo_button''"
    by (simp add: example_element_def ElementParser_categorize_element_def lower_def
        lower_char_def any_in_def sublist_code prefix_code)
  show ?thesis
    using classify_total_role_first [of ?e "''button''"] role mem other by blast
qed

section \<open>Properties of the locator generator\<close>



text \<open>The rules of the chain below the \<^verbatim>\<open>id\<close> rule, each under the failure of the rules before it.\<close>

lemma locator_priority_chain:
  assumes "\<not> truthy (get_attribute e ''id'')"
  shows "truthy (get_attribute e ''data-test'') \<Longrightarrow>
           generate_css_selector e =
             ''[data-test='' @ sq @ the (get_attribute e ''data-test'') @ sq @ '']''"
    and "\<not> truthy (get_attribute e ''data-test'') \<Longrightarrow>
         truthy (get_attribute e ''data-testid'') \<Longrightarrow>
           generate_css_selector e =
             ''[data-testid='' @ sq @ the (get_attribute e ''data-testid'') @ sq @ '']''"
    and "\<not> truthy (get_attribute e ''data-test'') \<Longrightarrow>
         \<not> truthy (get_attribute e ''data-testid'') \<Longrightarrow>
         truthy (get_attribute e ''name'') \<Longrightarrow>
           generate_css_selector e =
             we_tag_name e @ ''[name='' @ sq @ the (get_attribute e ''name'') @ sq @ '']''"
    and "\<not> truthy (get_attribute e ''data-test'') \<Longrightarrow>
         \<not> truthy (get_attribute e ''data-testid'') \<Longrightarrow>
         \<not> truthy (get_attribute e ''name'') \<Longrightarrow>
         we_tag_name e \<in> set [''input'', ''textarea''] \<Longrightarrow>
         truthy (get_attribute e ''placeholder'') \<Longrightarrow>
           generate_css_selector e =
             we_tag_name e @ ''[placeholder='' @ sq @ the (get_attribute e ''placeholder'') @
             sq @ '']''"
    and "\<not> truthy (get_attribute e ''data-test'') \<Longrightarrow>
         \<not> truthy (get_attribute e ''data-testid'') \<Longrightarrow>
         \<not> truthy (get_attribute e ''name'') \<Longrightarrow>
         \<not> (we_tag_name e \<in> set [''input'', ''textarea''] \<and>
            truthy (get_attribute e ''placeholder'')) \<Longrightarrow>
         get_attribute e ''class'' = Some cls \<Longrightarrow> py_split cls = c # cs \<Longrightarrow>
         \<not> prefix ''ng-'' c \<Longrightarrow> \<not> prefix ''ui-'' c \<Longrightarrow> c \<noteq> [] \<Longrightarrow>
           generate_css_selector e = we_tag_name e @ ''.'' @ c"
  using assms by (auto simp: generate_css_selector_def Let_def py_split_def)

section \<open>Properties of the element extraction\<close>

text \<open>
  C10: a record extracted from an element whose tag name is \<^verbatim>\<open>a\<close> reports the element
  as enabled, in the parser and in the analyzer, whatever the browser says about the element.
\<close>

theorem anchor_always_enabled:
  "(ElementParser_extract_element_data cfg e page_url page_title = Some r \<longrightarrow>
      pe_tag_name r = ''a'' \<longrightarrow> pe_is_enabled r) \<and>
   (EnhancedAnalyzer_extract_element_data e = Some d \<longrightarrow> tag_name d = ''a'' \<longrightarrow> is_enabled d)"
  by (auto simp: ElementParser_extract_element_data_def EnhancedAnalyzer_extract_element_data_def
      split: if_splits)

theorem anchor_always_enabled_witness:
  "\<not> we_is_enabled (example_element ''a'' []) \<and>
   map_option pe_tag_name
     (ElementParser_extract_element_data default_config (example_element ''a'' []) ''u'' ''t'')
     = Some ''a'' \<and>
   map_option pe_is_enabled
     (ElementParser_extract_element_data default_config (example_element ''a'' []) ''u'' ''t'')
     = Some True \<and>
   map_option tag_name (EnhancedAnalyzer_extract_element_data (example_element ''a'' []))
     = Some ''a'' \<and>
   map_option is_enabled (EnhancedAnalyzer_extract_element_data (example_element ''a'' []))
     = Some True"
proof -
  let ?e = "example_element ''a'' []"
  obtain r where r: "ElementParser_extract_element_data default_config ?e ''u'' ''t'' = Some r"
    by (simp add: ElementParser_extract_element_data_def example_element_def default_config_def)
  have rt: "pe_tag_name r = ''a''"
    using r by (auto simp: ElementParser_extract_element_data_def example_element_def
        default_config_def)
  obtain d where d: "EnhancedAnalyzer_extract_element_data ?e = Some d"
    by (simp add: EnhancedAnalyzer_extract_element_data_def example_element_def)
  have dt: "tag_name d = ''a''"
    using d by (auto simp: EnhancedAnalyzer_extract_element_data_def example_element_def)
  have "pe_is_enabled r" "is_enabled d"
    using anchor_always_enabled [of default_config ?e "''u''" "''t''" r d] r rt d dt by blast+
  moreover have "\<not> we_is_enabled ?e"
    by (simp add: example_element_def)
  ultimately show ?thesis
    using r rt d dt by simp
qed

lemma set_map_filter: "set (List.map_filter f xs) = {y. \<exists>x \<in> set xs. f x = Some y}"
  by (induction xs) (auto simp: List.map_filter_def)

lemma ElementParser_extract_anchor:
  "ElementParser_extract_element_data cfg e u t = Some r \<Longrightarrow> pe_tag_name r = ''a'' \<Longrightarrow>
   pe_is_enabled r"
  by (auto simp: ElementParser_extract_element_data_def split: if_splits)

lemma EnhancedAnalyzer_extract_anchor:
  "EnhancedAnalyzer_extract_element_data e = Some d \<Longrightarrow> tag_name d = ''a'' \<Longrightarrow> is_enabled d"
  by (auto simp: EnhancedAnalyzer_extract_element_data_def split: if_splits)

lemma extracted_anchors_enabled:
  "(\<forall>r \<in> set (extract_elements cfg pg url). pe_tag_name r = ''a'' \<longrightarrow> pe_is_enabled r) \<and>
   (\<forall>d \<in> set (find_interactive_elements pg). tag_name d = ''a'' \<longrightarrow> is_enabled d)"
  by (auto simp: extract_elements_def find_interactive_elements_def set_map_filter
      split: option.splits dest: ElementParser_extract_anchor EnhancedAnalyzer_extract_anchor)

section \<open>Properties of the flow inference\<close>

lemma foldl_login_fields:
  "(snd (foldl login_field_step (u, p) fs) \<noteq> None \<longleftrightarrow>
      p \<noteq> None \<or> (\<exists>f \<in> set fs. is_password_field f)) \<and>
   (fst (foldl login_field_step (u, p) fs) \<noteq> None \<longleftrightarrow>
      u \<noteq> None \<or> (\<exists>f \<in> set fs. \<not> is_password_field f \<and> is_username_field f))"
proof (induction fs arbitrary: u p)
  case Nil
  show ?case by simp
next
  case (Cons f fs)
  show ?case
    using Cons.IH [of "fst (login_field_step (u, p) f)" "snd (login_field_step (u, p) f)"]
    by (auto simp: login_field_step_def)
qed

lemma foldl_login_fields_mem:
  "(\<forall>x. snd (foldl login_field_step (u, p) fs) = Some x \<longrightarrow>
      p = Some x \<or> (x \<in> set fs \<and> is_password_field x)) \<and>
   (\<forall>x. fst (foldl login_field_step (u, p) fs) = Some x \<longrightarrow>
      u = Some x \<or> (x \<in> set fs \<and> \<not> is_password_field x \<and> is_username_field x))"
proof (induction fs arbitrary: u p)
  case Nil
  show ?case by simp
next
  case (Cons f fs)
  show ?case
    using Cons.IH [of "fst (login_field_step (u, p) f)" "snd (login_field_step (u, p) f)"]
    by (auto simp: login_field_step_def split: if_splits)
qed

lemma find_not_None: "find P xs \<noteq> None \<longleftrightarrow> (\<exists>x \<in> set xs. P x)"
  by (induction xs) auto

lemma find_Some_mem: "find P xs = Some x \<Longrightarrow> x \<in> set xs \<and> P x"
  by (induction xs) (auto split: if_splits)

lemma login_flow_found_iff:
  "identify_login_flow input_fields buttons \<noteq> None \<longleftrightarrow>
      (\<exists>f \<in> set input_fields. \<not> is_password_field f \<and> is_username_field f) \<and>
      (\<exists>f \<in> set input_fields. is_password_field f) \<and>
      (\<exists>b \<in> set buttons. is_login_button b)"
proof -
  let ?found = "foldl login_field_step (None, None) input_fields"
  have iff: "identify_login_flow input_fields buttons \<noteq> None \<longleftrightarrow>
      fst ?found \<noteq> None \<and> snd ?found \<noteq> None \<and> find is_login_button buttons \<noteq> None"
    by (auto simp: identify_login_flow_def Let_def split: option.splits)
  have a: "fst ?found \<noteq> None \<longleftrightarrow>
        (\<exists>f \<in> set input_fields. \<not> is_password_field f \<and> is_username_field f)"
    using foldl_login_fields [of None None input_fields] by simp
  have b: "snd ?found \<noteq> None \<longleftrightarrow> (\<exists>f \<in> set input_fields. is_password_field f)"
    using foldl_login_fields [of None None input_fields] by simp
  show ?thesis unfolding iff a b find_not_None ..
qed

lemma login_flow_steps:
  assumes fl: "identify_login_flow input_fields buttons = Some fl"
  shows "\<exists>u \<in> set input_fields. \<exists>p \<in> set input_fields. \<exists>b \<in> set buttons.
         \<not> is_password_field u \<and> is_username_field u \<and> is_password_field p \<and>
         is_login_button b \<and>
         fl_name fl = ''User Authentication'' \<and>
         map st_element (fl_steps fl) = [css_selector u, css_selector p, css_selector b] \<and>
         map st_action (fl_steps fl) = [''input'', ''input'', ''click''] \<and>
         map st_value (fl_steps fl) = [Some ''standard_user'', Some ''secret_sauce'', None]"
proof -
  let ?found = "foldl login_field_step (None, None) input_fields"
  obtain u where u0: "fst ?found = Some u"
    using fl by (cases "fst ?found") (simp_all add: identify_login_flow_def Let_def)
  obtain p where p0: "snd ?found = Some p"
    using fl u0 by (cases "snd ?found") (simp_all add: identify_login_flow_def Let_def)
  obtain b where b0: "find is_login_button buttons = Some b"
    using fl u0 p0 by (cases "find is_login_button buttons")
      (simp_all add: identify_login_flow_def Let_def)
  have eq: "fl = login_flow u p b"
    using fl u0 p0 b0 by (simp add: identify_login_flow_def Let_def)
  have u: "u \<in> set input_fields \<and> \<not> is_password_field u \<and> is_username_field u"
    using foldl_login_fields_mem [of None None input_fields] u0 by simp
  have p: "p \<in> set input_fields \<and> is_password_field p"
    using foldl_login_fields_mem [of None None input_fields] p0 by simp
  have b: "b \<in> set buttons \<and> is_login_button b"
    using find_Some_mem [OF b0] .
  have steps: "fl_name fl = ''User Authentication'' \<and>
         map st_element (fl_steps fl) = [css_selector u, css_selector p, css_selector b] \<and>
         map st_action (fl_steps fl) = [''input'', ''input'', ''click''] \<and>
         map st_value (fl_steps fl) = [Some ''standard_user'', Some ''secret_sauce'', None]"
    by (simp add: eq login_flow_def input_step_def click_step_def)
  show ?thesis
    apply (rule bexI [of _ u])
     apply (rule bexI [of _ p])
      apply (rule bexI [of _ b])
    using u p b steps by simp_all
qed

text \<open>
  C4: the login detector emits a flow exactly when the scan of the input fields finds a
  username field (a field that is not a password field and has a username mark) and a
  password field, and the scan of the buttons finds a login button. The flow emitted is the
  one flow named \<^verbatim>\<open>User Authentication\<close> with three steps on those elements, in this
  order: input of \<^verbatim>\<open>standard_user\<close>, input of \<^verbatim>\<open>secret_sauce\<close>, click. When any
  of the three is missing the result is \<^verbatim>\<open>None\<close>.
\<close>

theorem login_flow_needs_all_three:
  "(identify_login_flow input_fields buttons \<noteq> None \<longleftrightarrow>
      (\<exists>f \<in> set input_fields. \<not> is_password_field f \<and> is_username_field f) \<and>
      (\<exists>f \<in> set input_fields. is_password_field f) \<and>
      (\<exists>b \<in> set buttons. is_login_button b)) \<and>
   (\<forall>fl. identify_login_flow input_fields buttons = Some fl \<longrightarrow>
      (\<exists>u \<in> set input_fields. \<exists>p \<in> set input_fields. \<exists>b \<in> set buttons.
         \<not> is_password_field u \<and> is_username_field u \<and> is_password_field p \<and>
         is_login_button b \<and>
         fl_name fl = ''User Authentication'' \<and>
         map st_element (fl_steps fl) = [css_selector u, css_selector p, css_selector b] \<and>
         map st_action (fl_steps fl) = [''input'', ''input'', ''click''] \<and>
         map st_value (fl_steps fl) = [Some ''standard_user'', Some ''secret_sauce'', None]))"
proof (intro conjI allI impI)
  show "identify_login_flow input_fields buttons \<noteq> None \<longleftrightarrow>
      (\<exists>f \<in> set input_fields. \<not> is_password_field f \<and> is_username_field f) \<and>
      (\<exists>f \<in> set input_fields. is_password_field f) \<and>
      (\<exists>b \<in> set buttons. is_login_button b)"
    by (rule login_flow_found_iff)
next
  fix fl
  assume "identify_login_flow input_fields buttons = Some fl"
  then show "\<exists>u \<in> set input_fields. \<exists>p \<in> set input_fields. \<exists>b \<in> set buttons.
         \<not> is_password_field u \<and> is_username_field u \<and> is_password_field p \<and>
         is_login_button b \<and>
         fl_name fl = ''User Authentication'' \<and>
         map st_element (fl_steps fl) = [css_selector u, css_selector p, css_selector b] \<and>
         map st_action (fl_steps fl) = [''input'', ''input'', ''click''] \<and>
         map st_value (fl_steps fl) = [Some ''standard_user'', Some ''secret_sauce'', None]"
    by (rule login_flow_steps)
qed

theorem login_flow_needs_all_three_witness:
  "identify_login_flow
     [example_data ''input_field'' [] [(''type'', ''text'')] 10 ''#user'',
      example_data ''input_field'' [] [(''type'', ''password'')] 20 ''#pw'']
     [example_data ''button'' ''Log In'' [] 30 ''button''] \<noteq> None \<and>
   identify_login_flow
     [example_data ''input_field'' [] [(''type'', ''text'')] 10 ''#user'',
      example_data ''input_field'' [] [(''type'', ''password'')] 20 ''#pw'']
     [] = None \<and>
   identify_login_flow
     [example_data ''input_field'' [] [(''type'', ''text'')] 10 ''#user'']
     [example_data ''button'' ''Log In'' [] 30 ''button''] = None \<and>
   identify_login_flow
     [example_data ''input_field'' [] [(''type'', ''password'')] 20 ''#pw'']
     [example_data ''button'' ''Log In'' [] 30 ''button''] = None"
proof -
  let ?u = "example_data ''input_field'' [] [(''type'', ''text'')] 10 ''#user''"
  let ?p = "example_data ''input_field'' [] [(''type'', ''password'')] 20 ''#pw''"
  let ?b = "example_data ''button'' ''Log In'' [] 30 ''button''"
  have u: "\<not> is_password_field ?u" "is_username_field ?u"
    by (simp_all add: is_password_field_def is_username_field_def example_data_def dict_get_def
        lower_def sublist_code prefix_code)
  have p: "is_password_field ?p"
    by (simp add: is_password_field_def example_data_def dict_get_def)
  have b: "is_login_button ?b"
    by (simp add: is_login_button_def example_data_def any_in_def lower_def lower_char_def
        sublist_code prefix_code)
  have 1: "identify_login_flow [?u, ?p] [?b] \<noteq> None"
    using login_flow_needs_all_three [of "[?u, ?p]" "[?b]", THEN conjunct1] u p b by simp
  have 2: "identify_login_flow [?u, ?p] [] = None"
    using login_flow_needs_all_three [of "[?u, ?p]" "[]", THEN conjunct1] by simp
  have 3: "identify_login_flow [?u] [?b] = None"
    using login_flow_needs_all_three [of "[?u]" "[?b]", THEN conjunct1] u by simp
  have 4: "identify_login_flow [?p] [?b] = None"
    using login_flow_needs_all_three [of "[?p]" "[?b]", THEN conjunct1] p by simp
  show ?thesis using 1 2 3 4 by (intro conjI)
qed

text \<open>
  In the list of all flows there is one flow named \<^verbatim>\<open>User Authentication\<close> when the
  login detector fires and none otherwise.
\<close>

lemma login_flow_in_user_flows:
  "length (filter (\<lambda>fl. fl_name fl = ''User Authentication'') (generate_user_flows elements)) =
     (if identify_login_flow
           (filter (\<lambda>e. element_type e \<in> set [''input_field'', ''text_area'']) elements)
           (filter (\<lambda>e. element_type e \<in> set [''button'', ''submit'']) elements) = None
      then 0 else 1)"
proof (cases "elements = []")
  case True
  then show ?thesis
    by (simp add: generate_user_flows_def identify_login_flow_def)
next
  case False
  let ?i = "filter (\<lambda>e. element_type e \<in> set [''input_field'', ''text_area'']) elements"
  let ?b = "filter (\<lambda>e. element_type e \<in> set [''button'', ''submit'']) elements"
  let ?l = "filter (\<lambda>e. element_type e = ''link'') elements"
  let ?P = "\<lambda>fl. fl_name fl = ''User Authentication''"
  have gen: "generate_user_flows elements =
      opt_list (identify_login_flow ?i ?b) @ opt_list (identify_form_flow ?i ?b) @
      (if ?l \<noteq> [] then [nav_flow ?l] else [])"
    using False unfolding generate_user_flows_def Let_def by simp
  have a: "filter ?P (opt_list (identify_login_flow ?i ?b)) = opt_list (identify_login_flow ?i ?b)"
    by (auto simp: identify_login_flow_def Let_def login_flow_def opt_list_def
        split: option.splits)
  have b: "filter ?P (opt_list (identify_form_flow ?i ?b)) = []"
    by (auto simp: identify_form_flow_def form_flow_def opt_list_def
        split: option.splits if_splits)
  have c: "filter ?P (if ?l \<noteq> [] then [nav_flow ?l] else []) = []"
    by (simp add: nav_flow_def)
  have "filter ?P (generate_user_flows elements) = opt_list (identify_login_flow ?i ?b)"
    unfolding gen filter_append a b c by simp
  then show ?thesis
    by (simp add: opt_list_def split: option.splits)
qed

lemma login_round_trip:
  assumes "\<not> is_password_field u" "is_username_field u" "is_password_field p"
    "is_login_button b"
  shows "identify_login_flow [u, p] [b] = Some (login_flow u p b)"
  using assms by (simp add: identify_login_flow_def login_field_step_def)

lemma resolve_submit_button_Some:
  "buttons \<noteq> [] \<Longrightarrow> resolve_submit_button input_fields buttons \<noteq> None"
  by (simp add: resolve_submit_button_def Let_def split: option.splits list.splits)

lemma form_flow_iff:
  "identify_form_flow input_fields buttons \<noteq> None \<longleftrightarrow>
     3 \<le> length input_fields \<and> buttons \<noteq> []"
proof (cases "3 \<le> length input_fields \<and> buttons \<noteq> []")
  case True
  then have "input_fields \<noteq> []" "\<not> length input_fields \<le> 2" by auto
  moreover obtain b where "resolve_submit_button input_fields buttons = Some b"
    using True resolve_submit_button_Some [of buttons input_fields] by auto
  ultimately show ?thesis using True by (simp add: identify_form_flow_def)
next
  case False
  then have "identify_form_flow input_fields buttons = None"
    by (auto simp: identify_form_flow_def)
  with False show ?thesis by simp
qed

lemma form_flow_name:
  "identify_form_flow i b = Some fl \<Longrightarrow> fl_name fl = ''Form Submission''"
  by (auto simp: identify_form_flow_def form_flow_def split: option.splits if_splits)

lemma login_flow_name:
  "identify_login_flow i b = Some fl \<Longrightarrow> fl_name fl = ''User Authentication''"
  by (auto simp: identify_login_flow_def Let_def login_flow_def split: option.splits)

lemma form_flow_in_user_flows:
  "(\<exists>fl \<in> set (generate_user_flows elements). fl_name fl = ''Form Submission'') \<longleftrightarrow>
     identify_form_flow
       (filter (\<lambda>e. element_type e \<in> set [''input_field'', ''text_area'']) elements)
       (filter (\<lambda>e. element_type e \<in> set [''button'', ''submit'']) elements) \<noteq> None"
proof (cases "elements = []")
  case True
  then show ?thesis
    by (simp add: generate_user_flows_def identify_form_flow_def)
next
  case False
  let ?i = "filter (\<lambda>e. element_type e \<in> set [''input_field'', ''text_area'']) elements"
  let ?b = "filter (\<lambda>e. element_type e \<in> set [''button'', ''submit'']) elements"
  let ?l = "filter (\<lambda>e. element_type e = ''link'') elements"
  let ?P = "\<lambda>fl. fl_name fl = ''Form Submission''"
  have gen: "generate_user_flows elements =
      opt_list (identify_login_flow ?i ?b) @ opt_list (identify_form_flow ?i ?b) @
      (if ?l \<noteq> [] then [nav_flow ?l] else [])"
    using False unfolding generate_user_flows_def Let_def by simp
  have a: "filter ?P (opt_list (identify_login_flow ?i ?b)) = []"
    by (cases "identify_login_flow ?i ?b") (auto simp: opt_list_def dest: login_flow_name)
  have b: "filter ?P (opt_list (identify_form_flow ?i ?b)) = opt_list (identify_form_flow ?i ?b)"
    by (cases "identify_form_flow ?i ?b") (auto simp: opt_list_def dest: form_flow_name)
  have c: "filter ?P (if ?l \<noteq> [] then [nav_flow ?l] else []) = []"
    by (simp add: nav_flow_def)
  have "filter ?P (generate_user_flows elements) = opt_list (identify_form_flow ?i ?b)"
    unfolding gen filter_append a b c by simp
  then have "(filter ?P (generate_user_flows elements) \<noteq> []) = (identify_form_flow ?i ?b \<noteq> None)"
    by (simp add: opt_list_def split: option.splits)
  moreover have "(filter ?P (generate_user_flows elements) \<noteq> []) =
      (\<exists>fl \<in> set (generate_user_flows elements). fl_name fl = ''Form Submission'')"
    by (simp add: filter_empty_conv)
  ultimately show ?thesis by simp
qed

text \<open>
  C5, amended: the input fields that the form detector counts are the elements of type
  \<^verbatim>\<open>input_field\<close> or \<^verbatim>\<open>text_area\<close>; dropdowns are not counted. The detector emits
  a form flow exactly when there are at least three such fields and at least one element
  of type \<^verbatim>\<open>button\<close> or \<^verbatim>\<open>submit\<close>; with two fields or fewer it emits none.
\<close>

theorem form_flow_needs_three_inputs:
  "(identify_form_flow input_fields buttons \<noteq> None \<longleftrightarrow>
      3 \<le> length input_fields \<and> buttons \<noteq> []) \<and>
   ((\<exists>fl \<in> set (generate_user_flows elements). fl_name fl = ''Form Submission'') \<longleftrightarrow>
      3 \<le> length (filter (\<lambda>e. element_type e \<in> set [''input_field'', ''text_area'']) elements) \<and>
      filter (\<lambda>e. element_type e \<in> set [''button'', ''submit'']) elements \<noteq> [])"
  unfolding form_flow_in_user_flows form_flow_iff by simp

text \<open>
  C5, as stated, fails: two input fields and a dropdown are three input-like elements in
  the claim's sense, a submit button is there, and no form flow is emitted.
\<close>

theorem form_flow_dropdown_counterexample:
  "length (filter input_like
     [example_data ''input_field'' [] [(''name'', ''first'')] 10 ''#first'',
      example_data ''input_field'' [] [(''name'', ''last'')] 20 ''#last'',
      example_data ''dropdown'' [] [(''name'', ''country'')] 30 ''#country'',
      example_data ''button'' ''Submit'' [] 40 ''#go'']) = 3 \<and>
   generate_user_flows
     [example_data ''input_field'' [] [(''name'', ''first'')] 10 ''#first'',
      example_data ''input_field'' [] [(''name'', ''last'')] 20 ''#last'',
      example_data ''dropdown'' [] [(''name'', ''country'')] 30 ''#country'',
      example_data ''button'' ''Submit'' [] 40 ''#go''] = []"
  by (simp add: input_like_def example_data_def generate_user_flows_def identify_form_flow_def
      identify_login_flow_def login_field_step_def is_password_field_def is_username_field_def
      dict_get_def lower_def lower_char_def any_in_def sublist_code prefix_code opt_list_def)

theorem form_flow_needs_three_inputs_witness:
  "identify_form_flow
     [example_data ''input_field'' [] [(''name'', ''first'')] 10 ''#first'',
      example_data ''input_field'' [] [(''name'', ''last'')] 20 ''#last'',
      example_data ''text_area'' [] [(''name'', ''notes'')] 30 ''#notes'']
     [example_data ''button'' ''Submit'' [] 40 ''#go''] \<noteq> None \<and>
   identify_form_flow
     [example_data ''input_field'' [] [(''name'', ''first'')] 10 ''#first'',
      example_data ''input_field'' [] [(''name'', ''last'')] 20 ''#last'']
     [example_data ''button'' ''Submit'' [] 40 ''#go''] = None"
  using form_flow_needs_three_inputs
          [of "[example_data ''input_field'' [] [(''name'', ''first'')] 10 ''#first'',
                example_data ''input_field'' [] [(''name'', ''last'')] 20 ''#last'',
                example_data ''text_area'' [] [(''name'', ''notes'')] 30 ''#notes'']"
              "[example_data ''button'' ''Submit'' [] 40 ''#go'']" "[]", THEN conjunct1]
        form_flow_needs_three_inputs
          [of "[example_data ''input_field'' [] [(''name'', ''first'')] 10 ''#first'',
                example_data ''input_field'' [] [(''name'', ''last'')] 20 ''#last'']"
              "[example_data ''button'' ''Submit'' [] 40 ''#go'']" "[]", THEN conjunct1]
  by simp

lemma min_by_first_least:
  "(min_by f m xs = m \<and> (\<forall>x \<in> set xs. f m \<le> f x)) \<or>
   (\<exists>pre post. xs = pre @ min_by f m xs # post \<and> f (min_by f m xs) < f m \<and>
      (\<forall>x \<in> set pre. f (min_by f m xs) < f x) \<and>
      (\<forall>x \<in> set post. f (min_by f m xs) \<le> f x))"
proof (induction xs arbitrary: m)
  case Nil
  show ?case by simp
next
  case (Cons y ys)
  let ?m' = "if f y < f m then y else m"
  let ?r = "min_by f ?m' ys"
  have r: "min_by f m (y # ys) = ?r" by simp
  from Cons.IH [of ?m'] consider
    (stay) "?r = ?m'" "\<forall>x \<in> set ys. f ?m' \<le> f x"
    | (move) pre post where "ys = pre @ ?r # post" "f ?r < f ?m'"
      "\<forall>x \<in> set pre. f ?r < f x" "\<forall>x \<in> set post. f ?r \<le> f x"
    by blast
  then show ?case
  proof cases
    case stay
    show ?thesis
    proof (cases "f y < f m")
      case True
      with stay have "y # ys = [] @ ?r # ys" "f ?r < f m" "\<forall>x \<in> set ys. f ?r \<le> f x"
        by simp_all
      then show ?thesis unfolding r by (metis empty_iff empty_set)
    next
      case False
      with stay have "?r = m" "\<forall>x \<in> set (y # ys). f m \<le> f x" by simp_all
      then show ?thesis unfolding r by blast
    qed
  next
    case move
    have "y # ys = (y # pre) @ ?r # post" using move(1) by simp
    moreover have "f ?r < f m" using move(2) by (simp split: if_splits)
    moreover have "\<forall>x \<in> set (y # pre). f ?r < f x"
      using move(2,3) by (auto split: if_splits)
    ultimately show ?thesis unfolding r using move(4) by blast
  qed
qed

lemma min_by_Cons_first_least:
  "\<exists>pre post. m # xs = pre @ min_by f m xs # post \<and>
      (\<forall>x \<in> set pre. f (min_by f m xs) < f x) \<and>
      (\<forall>x \<in> set post. f (min_by f m xs) \<le> f x)"
proof -
  from min_by_first_least [of f m xs] consider
    (stay) "min_by f m xs = m" "\<forall>x \<in> set xs. f m \<le> f x"
    | (move) pre post where "xs = pre @ min_by f m xs # post" "f (min_by f m xs) < f m"
      "\<forall>x \<in> set pre. f (min_by f m xs) < f x" "\<forall>x \<in> set post. f (min_by f m xs) \<le> f x"
    by blast
  then show ?thesis
  proof cases
    case stay
    then have "m # xs = [] @ min_by f m xs # xs" "\<forall>x \<in> set xs. f (min_by f m xs) \<le> f x"
      by simp_all
    then show ?thesis by (metis empty_iff empty_set)
  next
    case move
    have "m # xs = (m # pre) @ min_by f m xs # post" using move(1) by simp
    moreover have "\<forall>x \<in> set (m # pre). f (min_by f m xs) < f x"
      using move(2,3) by simp
    ultimately show ?thesis using move(4) by blast
  qed
qed


text \<open>
  C6, amended: the submit button is the first button, in list order, whose text contains
  one of the five words or whose \<^verbatim>\<open>type\<close> is \<^verbatim>\<open>submit\<close>; when there is none, it is
  the button with the smallest y-coordinate among the buttons whose y-coordinate is
  greater than that of every input field (the one nearest below the fields, the first such
  in list order); when no button is below the fields, it is the last button of the list.
\<close>

theorem submit_button_resolution:
  "(\<forall>b. find is_submit_button buttons = Some b \<longrightarrow>
        resolve_submit_button input_fields buttons = Some b) \<and>
   (find is_submit_button buttons = None \<and> candidates input_fields buttons \<noteq> [] \<longrightarrow>
      (\<exists>pre r post.
         resolve_submit_button input_fields buttons = Some r \<and>
         candidates input_fields buttons = pre @ r # post \<and>
         (\<forall>b \<in> set pre. location_y r < location_y b) \<and>
         (\<forall>b \<in> set post. location_y r \<le> location_y b))) \<and>
   (find is_submit_button buttons = None \<and> candidates input_fields buttons = [] \<and>
    buttons \<noteq> [] \<longrightarrow>
      resolve_submit_button input_fields buttons = Some (last buttons))"
proof (intro conjI allI impI)
  fix b
  assume "find is_submit_button buttons = Some b"
  then show "resolve_submit_button input_fields buttons = Some b"
    by (simp add: resolve_submit_button_def)
next
  assume a: "find is_submit_button buttons = None \<and> candidates input_fields buttons \<noteq> []"
  then obtain c cs where c: "candidates input_fields buttons = c # cs"
    by (cases "candidates input_fields buttons") auto
  have r: "resolve_submit_button input_fields buttons = Some (min_by location_y c cs)"
    using a c by (simp add: resolve_submit_button_def candidates_def Let_def)
  from min_by_Cons_first_least [of c cs location_y] obtain pre post where
    "c # cs = pre @ min_by location_y c cs # post"
    "\<forall>x \<in> set pre. location_y (min_by location_y c cs) < location_y x"
    "\<forall>x \<in> set post. location_y (min_by location_y c cs) \<le> location_y x"
    by blast
  with r c show "\<exists>pre r post.
         resolve_submit_button input_fields buttons = Some r \<and>
         candidates input_fields buttons = pre @ r # post \<and>
         (\<forall>b \<in> set pre. location_y r < location_y b) \<and>
         (\<forall>b \<in> set post. location_y r \<le> location_y b)"
    by metis
next
  assume "find is_submit_button buttons = None \<and> candidates input_fields buttons = [] \<and>
    buttons \<noteq> []"
  then show "resolve_submit_button input_fields buttons = Some (last buttons)"
    by (simp add: resolve_submit_button_def candidates_def Let_def)
qed

lemma example_inputs_bottom:
  "Max (set (map location_y example_inputs)) = 30"
  "Max (location_y ` set example_inputs) = 30"
  by (simp_all add: example_inputs_def example_data_def)

lemma example_not_submit:
  "\<not> is_submit_button (example_data ''button'' ''Next'' [] y1 s1)"
  "\<not> is_submit_button (example_data ''button'' ''Back'' [] y2 s2)"
  by (simp_all add: is_submit_button_def example_data_def any_in_def lower_def lower_char_def
      sublist_code prefix_code)

text \<open>
  C6, as stated, fails in its second stage: of two buttons below the input fields the code
  takes the upper one (y = 40), not the one positioned lowest on the page (y = 50).
\<close>

theorem submit_button_lowest_counterexample:
  "resolve_submit_button example_inputs
     [example_data ''button'' ''Next'' [] 40 ''#next'',
      example_data ''button'' ''Back'' [] 50 ''#back'']
     = Some (example_data ''button'' ''Next'' [] 40 ''#next'') \<and>
   spec_submit_button example_inputs
     [example_data ''button'' ''Next'' [] 40 ''#next'',
      example_data ''button'' ''Back'' [] 50 ''#back'']
     = Some (example_data ''button'' ''Back'' [] 50 ''#back'')"
  by (simp add: resolve_submit_button_def spec_submit_button_def candidates_def
      example_not_submit example_inputs_bottom)
     (simp add: example_data_def)

theorem submit_button_resolution_witness:
  "resolve_submit_button example_inputs
     [example_data ''button'' ''Cancel'' [] 40 ''#cancel'',
      example_data ''button'' ''Save'' [] 5 ''#save'']
     = Some (example_data ''button'' ''Save'' [] 5 ''#save'') \<and>
   resolve_submit_button example_inputs
     [example_data ''button'' ''Next'' [] 40 ''#next'',
      example_data ''button'' ''Back'' [] 50 ''#back'']
     = Some (example_data ''button'' ''Next'' [] 40 ''#next'') \<and>
   resolve_submit_button example_inputs
     [example_data ''button'' ''Next'' [] 5 ''#next'',
      example_data ''button'' ''Back'' [] 7 ''#back'']
     = Some (example_data ''button'' ''Back'' [] 7 ''#back'')"
proof -
  let ?cancel = "example_data ''button'' ''Cancel'' [] 40 ''#cancel''"
  let ?save = "example_data ''button'' ''Save'' [] 5 ''#save''"
  let ?first_btn = "example_data ''button'' ''Next'' [] 40 ''#next''"
  let ?last_btn = "example_data ''button'' ''Back'' [] 50 ''#back''"
  let ?first_btn' = "example_data ''button'' ''Next'' [] 5 ''#next''"
  let ?last_btn' = "example_data ''button'' ''Back'' [] 7 ''#back''"
  have "\<not> is_submit_button ?cancel" "is_submit_button ?save"
    by (simp_all add: is_submit_button_def example_data_def any_in_def lower_def lower_char_def
        sublist_code prefix_code)
  then have "find is_submit_button [?cancel, ?save] = Some ?save" by simp
  then have 1: "resolve_submit_button example_inputs [?cancel, ?save] = Some ?save"
    using submit_button_resolution [of "[?cancel, ?save]" example_inputs, THEN conjunct1]
    by blast
  have f2: "find is_submit_button [?first_btn, ?last_btn] = None"
    by (simp add: example_not_submit)
  have c2: "candidates example_inputs [?first_btn, ?last_btn] = [?first_btn, ?last_btn]"
    by (simp add: candidates_def example_inputs_bottom) (simp add: example_data_def)
  from submit_button_resolution
         [of "[?first_btn, ?last_btn]" example_inputs, THEN conjunct2, THEN conjunct1] f2 c2
  obtain pre r post where r: "resolve_submit_button example_inputs [?first_btn, ?last_btn] = Some r"
    "[?first_btn, ?last_btn] = pre @ r # post" "\<forall>b \<in> set pre. location_y r < location_y b"
    by auto
  have "r = ?first_btn"
  proof (cases pre)
    case Nil
    with r(2) show ?thesis by simp
  next
    case (Cons p ps)
    with r(2) have "p = ?first_btn" "[?last_btn] = ps @ r # post" by simp_all
    then have "r = ?last_btn" by (cases ps) simp_all
    with r(3) Cons \<open>p = ?first_btn\<close> have False by (simp add: example_data_def)
    then show ?thesis ..
  qed
  with r(1) have 2: "resolve_submit_button example_inputs [?first_btn, ?last_btn] = Some ?first_btn"
    by simp
  have f3: "find is_submit_button [?first_btn', ?last_btn'] = None"
    by (simp add: example_not_submit)
  have c3: "candidates example_inputs [?first_btn', ?last_btn'] = []"
    by (simp add: candidates_def example_inputs_bottom) (simp add: example_data_def)
  have 3: "resolve_submit_button example_inputs [?first_btn', ?last_btn'] = Some ?last_btn'"
    using submit_button_resolution
            [of "[?first_btn', ?last_btn']" example_inputs, THEN conjunct2, THEN conjunct2] f3 c3
    by simp
  show ?thesis using 1 2 3 by (intro conjI)
qed

section \<open>Properties of the URL filter\<close>





section \<open>Properties of the crawl controller\<close>

lemma enqueue_link_fields:
  "visited_urls (enqueue_link s l) = visited_urls s"
  "queue (enqueue_link s l) = queue s"
  "current_depth (enqueue_link s l) = current_depth s"
  "pages_visited (enqueue_link s l) = pages_visited s"
  "driver_get_calls (enqueue_link s l) = driver_get_calls s"
  by (simp_all add: enqueue_link_def Let_def split: option.splits)

lemma foldl_enqueue_link_fields:
  "visited_urls (foldl enqueue_link s ls) = visited_urls s"
  "queue (foldl enqueue_link s ls) = queue s"
  "current_depth (foldl enqueue_link s ls) = current_depth s"
  "pages_visited (foldl enqueue_link s ls) = pages_visited s"
  "driver_get_calls (foldl enqueue_link s ls) = driver_get_calls s"
  by (induction ls arbitrary: s) (simp_all add: enqueue_link_fields)

lemma crawl_url_fields:
  "queue (crawl_url env cfg s u) = queue s"
  "current_depth (crawl_url env cfg s u) = current_depth s"
  "visited_urls s \<subseteq> visited_urls (crawl_url env cfg s u)"
  "visited_urls (crawl_url env cfg s u) \<subseteq> insert u (visited_urls s)"
  "driver_get_calls (crawl_url env cfg s u) = driver_get_calls s \<or>
   driver_get_calls (crawl_url env cfg s u) = driver_get_calls s @ [(u, current_depth s)]"
  by (auto simp: crawl_url_def Let_def foldl_enqueue_link_fields
      split: page_load.splits option.splits)


lemma foldl_crawl_url_calls:
  "\<exists>new. driver_get_calls (foldl (crawl_url env cfg) s us) = driver_get_calls s @ new \<and>
         set new \<subseteq> set us \<times> {current_depth s}"
proof (induction us arbitrary: s)
  case Nil
  show ?case by simp
next
  case (Cons u us)
  from Cons.IH [of "crawl_url env cfg s u"] obtain new where
    new: "driver_get_calls (foldl (crawl_url env cfg) (crawl_url env cfg s u) us) =
            driver_get_calls (crawl_url env cfg s u) @ new"
      "set new \<subseteq> set us \<times> {current_depth s}"
    by (auto simp: crawl_url_fields)
  from crawl_url_fields(5) [of env cfg s u] show ?case
  proof
    assume "driver_get_calls (crawl_url env cfg s u) = driver_get_calls s"
    with new have "driver_get_calls (foldl (crawl_url env cfg) s (u # us)) =
        driver_get_calls s @ new \<and> set new \<subseteq> set (u # us) \<times> {current_depth s}"
      by auto
    then show ?thesis by blast
  next
    assume "driver_get_calls (crawl_url env cfg s u) = driver_get_calls s @ [(u, current_depth s)]"
    with new have "driver_get_calls (foldl (crawl_url env cfg) s (u # us)) =
        driver_get_calls s @ ((u, current_depth s) # new) \<and>
        set ((u, current_depth s) # new) \<subseteq> set (u # us) \<times> {current_depth s}"
      by auto
    then show ?thesis by blast
  qed
qed

lemma foldl_crawl_url_visited:
  "visited_urls (foldl (crawl_url env cfg) s us) \<subseteq> visited_urls s \<union> set us"
proof (induction us arbitrary: s)
  case Nil
  show ?case by simp
next
  case (Cons u us)
  show ?case
    using Cons.IH [of "crawl_url env cfg s u"] crawl_url_fields(4) [of env cfg s u]
    by auto
qed

text \<open>Every call of \<^verbatim>\<open>driver.get\<close> is made at a depth that is at most \<^verbatim>\<open>max_depth\<close>.\<close>

lemma crawl_loop_calls_depth:
  assumes "\<forall>(u, d) \<in> set (driver_get_calls s). d \<le> max_depth cfg"
  shows "\<forall>(u, d) \<in> set (driver_get_calls (crawl_loop env cfg s)). d \<le> max_depth cfg"
  using assms
proof (induction env cfg s rule: crawl_loop.induct)
  case (1 env cfg s)
  show ?case
  proof (cases "queue s \<noteq> [] \<and> pages_visited s < max_pages cfg \<and>
                current_depth s \<le> max_depth cfg")
    case False
    then have "crawl_loop env cfg s = s" by (subst crawl_loop.simps) auto
    with "1.prems" show ?thesis by simp
  next
    case True
    define us where "us = (case depth_urls s (current_depth s) of None \<Rightarrow> [] | Some us \<Rightarrow> us)"
    define s1 where "s1 = s\<lparr>depth_urls := (depth_urls s)(current_depth s + 1 \<mapsto> [])\<rparr>"
    define s2 where "s2 = foldl (crawl_url env cfg) s1 us"
    have step: "crawl_loop env cfg s = crawl_loop env cfg (s2\<lparr>current_depth := current_depth s2 + 1\<rparr>)"
      using True by (subst crawl_loop.simps) (simp add: us_def s1_def s2_def Let_def)
    obtain new where new: "driver_get_calls s2 = driver_get_calls s1 @ new"
      "set new \<subseteq> set us \<times> {current_depth s1}"
      using foldl_crawl_url_calls [of env cfg s1 us] unfolding s2_def by blast
    have "\<forall>(u, d) \<in> set (driver_get_calls (s2\<lparr>current_depth := current_depth s2 + 1\<rparr>)).
            d \<le> max_depth cfg"
      using new "1.prems" True by (auto simp: s1_def)
    then have "\<forall>(u, d) \<in> set (driver_get_calls
         (crawl_loop env cfg (s2\<lparr>current_depth := current_depth s2 + 1\<rparr>))). d \<le> max_depth cfg"
      using "1.IH" [OF True us_def s1_def s2_def] by simp
    then show ?thesis unfolding step .
  qed
qed



lemma crawl_init_fields:
  "visited_urls (crawl_init self u) = {}"
  "queue (crawl_init self u) = [u]"
  "current_depth (crawl_init self u) = 0"
  "pages_visited (crawl_init self u) = 0"
  "depth_urls (crawl_init self u) = [0 \<mapsto> [u]]"
  "driver_get_calls (crawl_init self u) = []"
  "domain (crawl_init self u) = extract_domain u"
  by (simp_all add: crawl_init_def crawler.extend_def crawl_state.fields_def)

text \<open>In every crawl, each call of \<^verbatim>\<open>driver.get\<close> is made at a depth that is at most \<^verbatim>\<open>max_depth\<close>.\<close>

lemma start_crawl_fetch_depth:
  "\<forall>(u, d) \<in> set (driver_get_calls (crawl_loop env cfg (crawl_init self start_url))).
     d \<le> max_depth cfg"
  by (rule crawl_loop_calls_depth) (simp add: crawl_init_fields)





lemma extract_domain_examples:
  "extract_domain ''http://a.com/'' = ''a.com''"
  "extract_domain ''http://a.com/1'' = ''a.com''"
  "extract_domain ''http://a.com/2'' = ''a.com''"
  by (simp_all add: extract_domain_def urlsplit_def Let_def is_alpha_def is_scheme_char_def
      lower_def lower_char_def)

lemma should_crawl_url_examples:
  "domain s = ''a.com'' \<Longrightarrow>
   should_crawl_url s ''http://a.com/'' = (''http://a.com/'' \<notin> visited_urls s)"
  "domain s = ''a.com'' \<Longrightarrow>
   should_crawl_url s ''http://a.com/1'' = (''http://a.com/1'' \<notin> visited_urls s)"
  "domain s = ''a.com'' \<Longrightarrow>
   should_crawl_url s ''http://a.com/2'' = (''http://a.com/2'' \<notin> visited_urls s)"
  by (simp_all add: should_crawl_url_def extract_domain_examples excluded_extensions_def
      lower_def lower_char_def sublist_code prefix_code suffix_to_prefix)

lemmas crawl_eval =
  crawl_loop.simps crawl_init_def crawler.extend_def crawl_state.fields_def example_crawler_def
  default_config_def example_site_def link_page_def example_element_def crawl_url_def
  enqueue_link_def Let_def should_crawl_url_examples extract_domain_examples
  extract_elements_def List.map_filter_def start_crawl_def quit_driver_def crawler.truncate_def



text \<open>
  C1 at a failing input: with \<^verbatim>\<open>max_pages = 2\<close> and \<^verbatim>\<open>max_depth = 1\<close>, a start page
  with two links leaves three URLs in the visited set. The budget is tested between depth
  levels only, so every URL of a level that has been started is visited.
\<close>

theorem page_budget_overrun:
  "max_pages (default_config\<lparr>max_pages := 2, max_depth := 1\<rparr>) = 2 \<and>
   card (visited_urls (snd (start_crawl example_site
      (default_config\<lparr>max_pages := 2, max_depth := 1\<rparr>) (example_crawler [])
      ''http://a.com/''))) = 3"
  by (simp add: crawl_eval)

section \<open>Properties of the entry points\<close>













end
